theory Spec2Isabelle
  imports Main
begin

section \<open>JavaScript values\<close>

text \<open>
  The component receives parsed JSON (the permission payload, the group directory,
  user search results) and never checks its shape, so the payloads are modelled as
  untyped values. Numbers are integers (the payloads carry ids; \<open>NaN\<close> and
  fractions do not occur in them and are not modelled). An object is the list of
  its own properties in insertion order; the first binding of a name is the
  property.
\<close>

datatype jsval =
    JUndefined
  | JNull
  | JBool bool
  | JNum int
  | JStr string
  | JArr "jsval list"
  | JObj "(string \<times> jsval) list"

datatype error = TypeError

text \<open>\<open>ACCESS_TYPES = ["view", "modify"]\<close>.\<close>

datatype accessType = View | Modify

text \<open>
  The property names the source reads: \<open>data[key]\<close> for the two access types,
  \<open>val.users\<close>, \<open>val.groups\<close>, \<open>u.id\<close> and \<open>res.results\<close>. None of them is
  an index or a built-in member of an array, a string, a number, a boolean or
  \<open>Object.prototype\<close>, so reading one of them from a value that is not a plain
  object gives \<open>undefined\<close>, and from \<open>undefined\<close> or \<open>null\<close> raises a TypeError.
\<close>

datatype name = Access accessType | Users | Groups | Ident | Results

fun nameString :: "name \<Rightarrow> string" where
  "nameString (Access View) = ''view''"
| "nameString (Access Modify) = ''modify''"
| "nameString Users = ''users''"
| "nameString Groups = ''groups''"
| "nameString Ident = ''id''"
| "nameString Results = ''results''"

text \<open>\<open>!!v\<close>\<close>

fun truthy :: "jsval \<Rightarrow> bool" where
  "truthy JUndefined = False"
| "truthy JNull = False"
| "truthy (JBool b) = b"
| "truthy (JNum n) = (n \<noteq> 0)"
| "truthy (JStr s) = (s \<noteq> [])"
| "truthy (JArr xs) = True"
| "truthy (JObj kvs) = True"

text \<open>\<open>Array.isArray(v)\<close>\<close>

fun isArray :: "jsval \<Rightarrow> bool" where
  "isArray (JArr xs) = True"
| "isArray v = False"

text \<open>\<open>typeof v === "object"\<close>: true of \<open>null\<close>, arrays and objects.\<close>

fun typeofObject :: "jsval \<Rightarrow> bool" where
  "typeofObject JNull = True"
| "typeofObject (JArr xs) = True"
| "typeofObject (JObj kvs) = True"
| "typeofObject v = False"

text \<open>The elements of an array; read only under an \<open>Array.isArray\<close> guard.\<close>

fun elements :: "jsval \<Rightarrow> jsval list" where
  "elements (JArr xs) = xs"
| "elements v = []"

text \<open>\<open>v[k]\<close> and \<open>v.k\<close> for the names above.\<close>

fun readProp :: "jsval \<Rightarrow> name \<Rightarrow> error + jsval" where
  "readProp JUndefined k = Inl TypeError"
| "readProp JNull k = Inl TypeError"
| "readProp (JObj kvs) k =
     Inr (case map_of kvs (nameString k) of None \<Rightarrow> JUndefined | Some v \<Rightarrow> v)"
| "readProp v k = Inr JUndefined"

text \<open>\<open>k in Object(v)\<close> for the names above.\<close>

fun hasKey :: "jsval \<Rightarrow> name \<Rightarrow> bool" where
  "hasKey (JObj kvs) k = (map_of kvs (nameString k) \<noteq> None)"
| "hasKey v k = False"

text \<open>\<open>v == null\<close>\<close>

fun nullish :: "jsval \<Rightarrow> bool" where
  "nullish JUndefined = True"
| "nullish JNull = True"
| "nullish v = False"

text \<open>Objects and arrays, as opposed to primitives.\<close>

fun composite :: "jsval \<Rightarrow> bool" where
  "composite (JArr xs) = True"
| "composite (JObj kvs) = True"
| "composite v = False"

text \<open>
  \<open>a === b\<close>, and the SameValueZero comparison of \<open>Set.prototype.has\<close>, which
  differs from it on \<open>NaN\<close> only. Primitives are compared by value. Objects and
  arrays are compared by reference: the values the component compares come from
  different places (the \<open>author\<close> prop, the permission payload, the group
  directory, a search result), each parsed on its own, so two composite operands
  are never the same reference.
\<close>

definition strictEquals :: "jsval \<Rightarrow> jsval \<Rightarrow> bool" where
  "strictEquals a b = (\<not> composite a \<and> a = b)"

section \<open>The grant set and its normalization\<close>

record accessList =
  users :: "jsval list"
  groups :: "jsval list"

record grantSet =
  view :: accessList
  modify :: accessList

text \<open>\<open>grants[type]\<close> and \<open>out[key] = ...\<close> for the two access types.\<close>

fun category :: "accessType \<Rightarrow> grantSet \<Rightarrow> accessList" where
  "category View g = view g"
| "category Modify g = modify g"

fun setCategory :: "accessType \<Rightarrow> accessList \<Rightarrow> grantSet \<Rightarrow> grantSet" where
  "setCategory View a g = g\<lparr>view := a\<rparr>"
| "setCategory Modify a g = g\<lparr>modify := a\<rparr>"

text \<open>
  The initial \<open>out\<close> of \<open>normalizePermissionsShape\<close>, which is also the initial
  \<open>grants\<close> state of the dialog.
\<close>

definition emptyGrants :: grantSet where
  "emptyGrants =
     \<lparr>view = \<lparr>users = [], groups = []\<rparr>, modify = \<lparr>users = [], groups = []\<rparr>\<rparr>"

text \<open>The body of the \<open>forEach\<close> callback for one key of \<open>out\<close>.\<close>

definition normalizeKey :: "jsval \<Rightarrow> accessType \<Rightarrow> grantSet \<Rightarrow> error + grantSet" where
  "normalizeKey data key out =
     (case readProp data (Access key) of
        Inl e \<Rightarrow> Inl e
      | Inr val \<Rightarrow>
          if \<not> truthy val then Inr out
          else if isArray val then
            Inr (setCategory key ((category key out)\<lparr>users := elements val\<rparr>) out)
          else if typeofObject val then
            (case readProp val Users of
               Inl e \<Rightarrow> Inl e
             | Inr us \<Rightarrow>
                 (case readProp val Groups of
                    Inl e \<Rightarrow> Inl e
                  | Inr gs \<Rightarrow>
                      Inr (setCategory key
                            ((category key out)
                               \<lparr>users := (if isArray us then elements us else []),
                                groups := (if isArray gs then elements gs else [])\<rparr>)
                            out)))
          else Inr out)"

text \<open>
  \<open>normalizePermissionsShape(data)\<close>: the early return for a falsy or non-object
  payload, then the callback for \<open>Object.keys(out)\<close>, that is for \<open>view\<close> and
  then \<open>modify\<close>.
\<close>

definition normalizePermissionsShape :: "jsval \<Rightarrow> error + grantSet" where
  "normalizePermissionsShape data =
     (if \<not> truthy data \<or> \<not> typeofObject data then Inr emptyGrants
      else
        (case normalizeKey data View emptyGrants of
           Inl e \<Rightarrow> Inl e
         | Inr out \<Rightarrow> normalizeKey data Modify out))"

text \<open>The JavaScript object a grant set stands for (the current payload shape).\<close>

definition accessListValue :: "accessList \<Rightarrow> jsval" where
  "accessListValue a = JObj [(''users'', JArr (users a)), (''groups'', JArr (groups a))]"

definition grantSetValue :: "grantSet \<Rightarrow> jsval" where
  "grantSetValue g =
     JObj [(''view'', accessListValue (view g)), (''modify'', accessListValue (modify g))]"

section \<open>Selection filters\<close>

text \<open>
  Lodash's \<open>find(array, predicate)\<close>: the first element the predicate holds of,
  \<open>undefined\<close> when there is none.
\<close>

definition lodashFind :: "(jsval \<Rightarrow> bool) \<Rightarrow> jsval list \<Rightarrow> jsval" where
  "lodashFind p xs = (case List.find p xs of None \<Rightarrow> JUndefined | Some x \<Rightarrow> x)"

text \<open>
  Lodash's \<open>get(object, "id")\<close>: \<open>undefined\<close> for \<open>undefined\<close> and \<open>null\<close>,
  the property otherwise.
\<close>

definition lodashGet :: "jsval \<Rightarrow> name \<Rightarrow> jsval" where
  "lodashGet v k = (case readProp v k of Inl e \<Rightarrow> JUndefined | Inr w \<Rightarrow> w)"

text \<open>
  The predicate lodash builds from the source object \<open>{id: src}\<close>. For a primitive
  \<open>src\<close> it is \<open>e != null && e.id === src && (src !== undefined || "id" in Object(e))\<close>.
  For an object or array \<open>src\<close> lodash compares deeply and partially; that
  comparison is the parameter \<open>deepMatch\<close>, and nothing below depends on it.
\<close>

definition matchesId :: "(jsval \<Rightarrow> jsval \<Rightarrow> bool) \<Rightarrow> jsval \<Rightarrow> jsval \<Rightarrow> bool" where
  "matchesId deepMatch src e =
     (if composite src then deepMatch src e
      else
        (case readProp e Ident of
           Inl err \<Rightarrow> False
         | Inr v \<Rightarrow> strictEquals v src \<and> (src \<noteq> JUndefined \<or> hasKey e Ident)))"

text \<open>
  \<open>userHasPermission(u, type)\<close>, with the \<open>author\<close> prop and the \<open>grants\<close> state
  it closes over: \<open>u.id === author.id || !!get(find(grants[type].users, {id: u.id}), "id")\<close>.
\<close>

definition userHasPermission ::
  "(jsval \<Rightarrow> jsval \<Rightarrow> bool) \<Rightarrow> jsval \<Rightarrow> grantSet \<Rightarrow> jsval \<Rightarrow> accessType \<Rightarrow> error + bool" where
  "userHasPermission deepMatch author g u type =
     (case readProp u Ident of
        Inl e \<Rightarrow> Inl e
      | Inr uid \<Rightarrow>
          (case readProp author Ident of
             Inl e \<Rightarrow> Inl e
           | Inr aid \<Rightarrow>
               if strictEquals uid aid then Inr True
               else
                 Inr (truthy (lodashGet
                        (lodashFind (matchesId deepMatch uid) (users (category type g))) Ident))))"

text \<open>\<open>shouldShowUser={u => !userHasPermission(u, type)}\<close>\<close>

definition shouldShowUser ::
  "(jsval \<Rightarrow> jsval \<Rightarrow> bool) \<Rightarrow> jsval \<Rightarrow> grantSet \<Rightarrow> accessType \<Rightarrow> jsval \<Rightarrow> error + bool" where
  "shouldShowUser deepMatch author g type u =
     (case userHasPermission deepMatch author g u type of
        Inl e \<Rightarrow> Inl e
      | Inr b \<Rightarrow> Inr (\<not> b))"

text \<open>
  \<open>Array.prototype.filter\<close> and \<open>map\<close> with a callback that may throw: the first
  exception ends the traversal.
\<close>

fun filterE :: "('a \<Rightarrow> error + bool) \<Rightarrow> 'a list \<Rightarrow> error + 'a list" where
  "filterE p [] = Inr []"
| "filterE p (x # xs) =
     (case p x of
        Inl e \<Rightarrow> Inl e
      | Inr b \<Rightarrow>
          (case filterE p xs of
             Inl e \<Rightarrow> Inl e
           | Inr ys \<Rightarrow> Inr (if b then x # ys else ys)))"

fun mapE :: "('a \<Rightarrow> error + 'b) \<Rightarrow> 'a list \<Rightarrow> error + 'b list" where
  "mapE f [] = Inr []"
| "mapE f (x # xs) =
     (case f x of
        Inl e \<Rightarrow> Inl e
      | Inr y \<Rightarrow>
          (case mapE f xs of
             Inl e \<Rightarrow> Inl e
           | Inr ys \<Rightarrow> Inr (y # ys)))"

text \<open>
  The users \<open>UserSelect\<close> offers once loaded: \<open>users.filter(shouldShowUser)\<close>,
  where \<open>users\<close> is whatever the last search resolved to.
\<close>

definition offeredUsers ::
  "(jsval \<Rightarrow> jsval \<Rightarrow> bool) \<Rightarrow> jsval \<Rightarrow> grantSet \<Rightarrow> accessType \<Rightarrow> jsval \<Rightarrow> error + jsval list" where
  "offeredUsers deepMatch author g type found =
     (if isArray found then filterE (shouldShowUser deepMatch author g type) (elements found)
      else Inl TypeError)"

text \<open>\<open>grantedIds.has(i)\<close> for the set built from a list of ids.\<close>

definition setHas :: "jsval list \<Rightarrow> jsval \<Rightarrow> bool" where
  "setHas ids i = list_ex (\<lambda>j. strictEquals j i) ids"

text \<open>
  \<open>availableGroups\<close>, from the \<open>grants\<close> and \<open>allGroups\<close> states: the granted ids
  of both categories are collected first, then the directory is filtered.
\<close>

definition availableGroups :: "grantSet \<Rightarrow> jsval \<Rightarrow> error + jsval list" where
  "availableGroups g directory =
     (case mapE (\<lambda>x. readProp x Ident) (groups (view g)) of
        Inl e \<Rightarrow> Inl e
      | Inr viewIds \<Rightarrow>
          (case mapE (\<lambda>x. readProp x Ident) (groups (modify g)) of
             Inl e \<Rightarrow> Inl e
           | Inr modifyIds \<Rightarrow>
               if isArray directory then
                 filterE
                   (\<lambda>x. case readProp x Ident of
                           Inl e \<Rightarrow> Inl e
                         | Inr i \<Rightarrow> Inr (\<not> setHas (viewIds @ modifyIds) i))
                   (elements directory)
               else Inl TypeError))"

section \<open>Loading and the grant and revoke operations\<close>

text \<open>
  The dialog's state, and what an operation does as the list of its effects in
  the order they happen: calls of the state setters, requests sent, and error
  notifications. The outcome of each request is an input of the operation.
\<close>

record dialog =
  loading :: bool
  grants :: grantSet
  allGroups :: jsval

definition initialDialog :: dialog where
  "initialDialog = \<lparr>loading = True, grants = emptyGrants, allGroups = JArr []\<rparr>"

datatype 'a settled = Fulfilled 'a | Rejected

datatype httpMethod = GET | POST | DELETE

datatype effect =
    SetLoading bool
  | SetGrants grantSet
  | SetAllGroups jsval
  | Request httpMethod string "jsval option"
  | NotifyError string

fun applyEffect :: "effect \<Rightarrow> dialog \<Rightarrow> dialog" where
  "applyEffect (SetLoading b) d = d\<lparr>loading := b\<rparr>"
| "applyEffect (SetGrants g) d = d\<lparr>grants := g\<rparr>"
| "applyEffect (SetAllGroups v) d = d\<lparr>allGroups := v\<rparr>"
| "applyEffect (Request m url body) d = d"
| "applyEffect (NotifyError msg) d = d"

definition run :: "effect list \<Rightarrow> dialog \<Rightarrow> dialog" where
  "run effects d = fold applyEffect effects d"

text \<open>
  A promise chain, run to completion: the effects performed along the chain, in
  order, and how its last promise settles. No handler of the component reads a
  rejection's reason, so a rejection carries none.
\<close>

type_synonym 'a promise = "effect list \<times> 'a settled"

text \<open>
  \<open>axios.get(url)\<close>, \<open>axios.post(url, body)\<close> and \<open>axios.delete(url, {data: body})\<close>:
  the request is sent, and the promise settles as the reply does.
\<close>

definition request :: "httpMethod \<Rightarrow> string \<Rightarrow> jsval option \<Rightarrow> jsval settled \<Rightarrow> jsval promise" where
  "request m url body reply = ([Request m url body], reply)"

text \<open>
  \<open>p.then(f)\<close>: \<open>f\<close> runs on fulfilment, and the result is rejected when \<open>f\<close>
  throws. \<open>p.catch(h)\<close>: \<open>h\<close> runs on rejection. \<open>p.finally(h)\<close>: \<open>h\<close> runs
  either way and the outcome of \<open>p\<close> is kept. A callback is given by the effects
  it performs and the value it returns or the exception it throws.
\<close>

definition thenDo :: "'a promise \<Rightarrow> ('a \<Rightarrow> effect list \<times> (error + 'b)) \<Rightarrow> 'b promise" where
  "thenDo p f =
     (case snd p of
        Rejected \<Rightarrow> (fst p, Rejected)
      | Fulfilled a \<Rightarrow>
          (case f a of
             (es, Inl e) \<Rightarrow> (fst p @ es, Rejected)
           | (es, Inr b) \<Rightarrow> (fst p @ es, Fulfilled b)))"

definition catchDo :: "'a promise \<Rightarrow> effect list \<times> (error + 'a) \<Rightarrow> 'a promise" where
  "catchDo p h =
     (case snd p of
        Fulfilled a \<Rightarrow> p
      | Rejected \<Rightarrow>
          (case h of
             (es, Inl e) \<Rightarrow> (fst p @ es, Rejected)
           | (es, Inr b) \<Rightarrow> (fst p @ es, Fulfilled b)))"

definition finallyDo :: "'a promise \<Rightarrow> effect list \<Rightarrow> 'a promise" where
  "finallyDo p es = (fst p @ es, snd p)"

text \<open>\<open>Promise.all([p, q])\<close>: both requests have been sent when it is built.\<close>

definition promiseAll :: "'a promise \<Rightarrow> 'b promise \<Rightarrow> ('a \<times> 'b) promise" where
  "promiseAll p q =
     (fst p @ fst q,
      case snd p of
        Rejected \<Rightarrow> Rejected
      | Fulfilled a \<Rightarrow> (case snd q of Rejected \<Rightarrow> Rejected | Fulfilled b \<Rightarrow> Fulfilled (a, b)))"

text \<open>
  \<open>listAllGroups()\<close>, given how the request to \<open>/api/groups\<close> settles:
  \<open>.then(res => (Array.isArray(res) ? res : res.results || [])).catch(() => [])\<close>.
\<close>

definition listAllGroups :: "jsval settled \<Rightarrow> jsval promise" where
  "listAllGroups groupsReply =
     catchDo
       (thenDo (request GET ''/api/groups'' None groupsReply)
          (\<lambda>res. ([],
             if isArray res then Inr res
             else
               (case readProp res Results of
                  Inl e \<Rightarrow> Inl e
                | Inr r \<Rightarrow> Inr (if truthy r then r else JArr [])))))
       ([], Inr (JArr []))"

text \<open>
  The chain \<open>loadAll\<close> builds, given how its two requests settle, and \<open>loadAll()\<close>
  itself, which calls \<open>setLoading(true)\<close>, starts the chain and returns.
\<close>

definition loadAllChain :: "string \<Rightarrow> jsval settled \<Rightarrow> jsval settled \<Rightarrow> unit promise" where
  "loadAllChain aclUrl permReply groupsReply =
     finallyDo
       (catchDo
          (thenDo
             (promiseAll
                (catchDo (request GET aclUrl None permReply) ([], Inr (JObj [])))
                (listAllGroups groupsReply))
             (\<lambda>(perm, directory).
                case normalizePermissionsShape perm of
                  Inl e \<Rightarrow> ([], Inl e)
                | Inr g \<Rightarrow> ([SetGrants g, SetAllGroups directory], Inr ())))
          ([NotifyError ''Failed to load permissions''], Inr ()))
       [SetLoading False]"

definition loadAll :: "string \<Rightarrow> jsval settled \<Rightarrow> jsval settled \<Rightarrow> effect list" where
  "loadAll aclUrl permReply groupsReply =
     SetLoading True # fst (loadAllChain aclUrl permReply groupsReply)"

text \<open>
  The four operations, given how the mutating request settles and, for the
  reload that \<open>.then(loadAll)\<close> starts, how its two requests settle. Each returns
  its promise chain.
\<close>

definition grantUser ::
  "string \<Rightarrow> jsval settled \<Rightarrow> jsval settled \<Rightarrow> jsval settled \<Rightarrow> accessType \<Rightarrow> jsval \<Rightarrow> unit promise" where
  "grantUser aclUrl reply permReply groupsReply accessType userId =
     catchDo
       (thenDo
          (request POST aclUrl
             (Some (JObj [(''access_type'', JStr (nameString (Access accessType))),
                          (''user_id'', userId)]))
             reply)
          (\<lambda>r. (loadAll aclUrl permReply groupsReply, Inr ())))
       ([NotifyError ''Could not grant permission to the user''], Inr ())"

definition revokeUser ::
  "string \<Rightarrow> jsval settled \<Rightarrow> jsval settled \<Rightarrow> jsval settled \<Rightarrow> accessType \<Rightarrow> jsval \<Rightarrow> unit promise" where
  "revokeUser aclUrl reply permReply groupsReply accessType userId =
     catchDo
       (thenDo
          (request DELETE aclUrl
             (Some (JObj [(''access_type'', JStr (nameString (Access accessType))),
                          (''user_id'', userId)]))
             reply)
          (\<lambda>r. (loadAll aclUrl permReply groupsReply, Inr ())))
       ([NotifyError ''Could not remove permission from the user''], Inr ())"

definition grantGroup ::
  "string \<Rightarrow> jsval settled \<Rightarrow> jsval settled \<Rightarrow> jsval settled \<Rightarrow> accessType \<Rightarrow> jsval \<Rightarrow> unit promise" where
  "grantGroup aclUrl reply permReply groupsReply accessType groupId =
     catchDo
       (thenDo
          (request POST aclUrl
             (Some (JObj [(''access_type'', JStr (nameString (Access accessType))),
                          (''group_id'', groupId)]))
             reply)
          (\<lambda>r. (loadAll aclUrl permReply groupsReply, Inr ())))
       ([NotifyError ''Could not grant permission to the group''], Inr ())"

definition revokeGroup ::
  "string \<Rightarrow> jsval settled \<Rightarrow> jsval settled \<Rightarrow> jsval settled \<Rightarrow> accessType \<Rightarrow> jsval \<Rightarrow> unit promise" where
  "revokeGroup aclUrl reply permReply groupsReply accessType groupId =
     catchDo
       (thenDo
          (request DELETE aclUrl
             (Some (JObj [(''access_type'', JStr (nameString (Access accessType))),
                          (''group_id'', groupId)]))
             reply)
          (\<lambda>r. (loadAll aclUrl permReply groupsReply, Inr ())))
       ([NotifyError ''Could not remove permission from the group''], Inr ())"

text \<open>
  What a list of effects holds: the reloads (every run of \<open>loadAll\<close> starts with
  \<open>setLoading(true)\<close>, which nothing else calls), the mutating requests, the
  messages notified, and the grant sets stored by \<open>setGrants\<close>.
\<close>

definition reloads :: "effect list \<Rightarrow> nat" where
  "reloads effects = length (filter (\<lambda>e. e = SetLoading True) effects)"

definition mutations :: "effect list \<Rightarrow> effect list" where
  "mutations effects =
     filter (\<lambda>e. case e of Request m url body \<Rightarrow> m \<noteq> GET | _ \<Rightarrow> False) effects"

definition notifications :: "effect list \<Rightarrow> string list" where
  "notifications effects =
     concat (map (\<lambda>e. case e of NotifyError msg \<Rightarrow> [msg] | _ \<Rightarrow> []) effects)"

definition grantsStored :: "effect list \<Rightarrow> grantSet list" where
  "grantsStored effects =
     concat (map (\<lambda>e. case e of SetGrants g \<Rightarrow> [g] | _ \<Rightarrow> []) effects)"

section \<open>The debounced user search\<close>

definition DEBOUNCE_SEARCH_DURATION :: nat where
  "DEBOUNCE_SEARCH_DURATION = 200"

text \<open>
  Lodash's \<open>debounce\<close> and the timers behind it are not part of the sources; the
  three definitions that follow model them from the spec: each call schedules
  the lookup a quiet interval after itself, and a later call within that
  interval supersedes the pending one. The state of a debounced function is the
  time and the argument of its last call while a lookup is pending; time is
  counted in the units of the interval.
\<close>

type_synonym debounced = "(nat \<times> string) option"

text \<open>
  Modelled from the spec: the timer of \<open>debounce\<close>, which is missing. Time reaches
  \<open>now\<close>: a pending lookup whose interval has passed runs.
\<close>

definition elapse :: "nat \<Rightarrow> nat \<Rightarrow> debounced \<Rightarrow> string list \<times> debounced" where
  "elapse wait now d =
     (case d of
        None \<Rightarrow> ([], None)
      | Some (t, a) \<Rightarrow> if t + wait \<le> now then ([a], None) else ([], d))"

text \<open>
  Modelled from the spec: a call of the function \<open>debounce\<close> returns, which is
  missing. A call at time \<open>now\<close>: whatever was pending and not yet run is
  superseded.
\<close>

definition callDebounced :: "nat \<Rightarrow> nat \<Rightarrow> string \<Rightarrow> debounced \<Rightarrow> string list \<times> debounced" where
  "callDebounced wait now a d = (fst (elapse wait now d), Some (now, a))"

text \<open>
  Modelled from the spec: the timer of \<open>debounce\<close> after the last call, which is
  missing. No further call comes: a pending lookup runs when its interval has
  passed.
\<close>

definition settle :: "debounced \<Rightarrow> string list" where
  "settle d = (case d of None \<Rightarrow> [] | Some (t, a) \<Rightarrow> [a])"

text \<open>
  \<open>UserSelect\<close> keeps one debounced function for its whole life (\<open>useCallback\<close>
  with no dependencies) and its effect calls it with the search term whenever
  the term changes, and once on mount with the initial empty term. Given these
  calls with their times, the terms \<open>searchUsers\<close> is called with, in order.
\<close>

fun searchesIssued :: "(nat \<times> string) list \<Rightarrow> debounced \<Rightarrow> string list" where
  "searchesIssued [] d = settle d"
| "searchesIssued ((now, searchTerm) # later) d =
     (case callDebounced DEBOUNCE_SEARCH_DURATION now searchTerm d of
        (fired, d') \<Rightarrow> fired @ searchesIssued later d')"

text \<open>
  The terms are entered in order of time, each less than \<open>wait\<close> after the one
  before.
\<close>

fun withinQuietInterval :: "nat \<Rightarrow> (nat \<times> string) list \<Rightarrow> bool" where
  "withinQuietInterval wait (k1 # k2 # ks) =
     (fst k1 \<le> fst k2 \<and> fst k2 < fst k1 + wait \<and> withinQuietInterval wait (k2 # ks))"
| "withinQuietInterval wait ks = True"

section \<open>Properties of the normalization\<close>

lemma readProp_total: "truthy v \<Longrightarrow> \<exists>w. readProp v k = Inr w"
  by (cases v) simp_all

lemma normalizeKey_total: "truthy d \<Longrightarrow> \<exists>g'. normalizeKey d t g = Inr g'"
proof -
  assume d: "truthy d"
  then obtain val where val: "readProp d (Access t) = Inr val"
    using readProp_total by blast
  show ?thesis
  proof (cases "truthy val")
    case False
    with val show ?thesis by (simp add: normalizeKey_def)
  next
    case True
    then obtain us gs where "readProp val Users = Inr us" "readProp val Groups = Inr gs"
      using readProp_total by blast
    with val show ?thesis by (simp add: normalizeKey_def)
  qed
qed

lemma normalizePermissionsShape_total: "\<exists>g. normalizePermissionsShape d = Inr g"
proof (cases "\<not> truthy d \<or> \<not> typeofObject d")
  case True
  then show ?thesis by (auto simp: normalizePermissionsShape_def)
next
  case False
  then have d: "truthy d" by simp
  obtain g1 where g1: "normalizeKey d View emptyGrants = Inr g1"
    using normalizeKey_total [OF d] by blast
  obtain g2 where "normalizeKey d Modify g1 = Inr g2"
    using normalizeKey_total [OF d] by blast
  with g1 False show ?thesis by (simp add: normalizePermissionsShape_def)
qed

lemma normalizeKey_category:
  assumes "readProp d (Access t) = Inr v"
  shows "\<exists>g'. normalizeKey d t g = Inr g' \<and>
    category t g' =
      (if \<not> truthy v then category t g
       else if isArray v then (category t g)\<lparr>users := elements v\<rparr>
       else if typeofObject v then
         (category t g)
           \<lparr>users := (if isArray (lodashGet v Users) then elements (lodashGet v Users) else []),
            groups := (if isArray (lodashGet v Groups) then elements (lodashGet v Groups) else [])\<rparr>
       else category t g)"
  using assms
  by (cases v; cases t) (simp_all add: normalizeKey_def lodashGet_def)

lemma normalizeKey_other:
  "normalizeKey d t g = Inr g' \<Longrightarrow> t' \<noteq> t \<Longrightarrow> category t' g' = category t' g"
  by (cases t; cases t')
     (auto simp: normalizeKey_def split: sum.splits if_splits)

lemma category_emptyGrants: "category t emptyGrants = \<lparr>users = [], groups = []\<rparr>"
  by (cases t) (simp_all add: emptyGrants_def)

lemma readProp_primitive:
  "\<not> truthy d \<or> \<not> typeofObject d \<Longrightarrow> readProp d k = Inr v \<Longrightarrow> v = JUndefined"
  by (cases d) auto

lemma normalizePermissionsShape_category:
  assumes n: "normalizePermissionsShape d = Inr g" and v: "readProp d (Access t) = Inr v"
  shows "category t g =
      (if \<not> truthy v then \<lparr>users = [], groups = []\<rparr>
       else if isArray v then \<lparr>users = elements v, groups = []\<rparr>
       else if typeofObject v then
         \<lparr>users = (if isArray (lodashGet v Users) then elements (lodashGet v Users) else []),
          groups = (if isArray (lodashGet v Groups) then elements (lodashGet v Groups) else [])\<rparr>
       else \<lparr>users = [], groups = []\<rparr>)"
proof (cases "\<not> truthy d \<or> \<not> typeofObject d")
  case True
  with n have "g = emptyGrants"
    by (auto simp: normalizePermissionsShape_def)
  moreover from True v have "v = JUndefined" by (rule readProp_primitive)
  ultimately show ?thesis by (simp add: category_emptyGrants)
next
  case False
  then have d: "truthy d" by simp
  obtain g1 where g1: "normalizeKey d View emptyGrants = Inr g1"
    using normalizeKey_total [OF d] by blast
  with n False have g2: "normalizeKey d Modify g1 = Inr g"
    by (simp add: normalizePermissionsShape_def)
  have step: "category t h' =
      (if \<not> truthy v then category t h
       else if isArray v then (category t h)\<lparr>users := elements v\<rparr>
       else if typeofObject v then
         (category t h)
           \<lparr>users := (if isArray (lodashGet v Users) then elements (lodashGet v Users) else []),
            groups := (if isArray (lodashGet v Groups) then elements (lodashGet v Groups) else [])\<rparr>
       else category t h)"
    if "normalizeKey d t h = Inr h'" for h h'
    using normalizeKey_category [OF v, of h] that by auto
  show ?thesis
  proof (cases t)
    case View
    have "category t g = category t g1"
      using normalizeKey_other [OF g2, of t] View by simp
    moreover have "normalizeKey d t emptyGrants = Inr g1" using g1 View by simp
    ultimately show ?thesis
      using step [of emptyGrants g1] by (simp add: category_emptyGrants)
  next
    case Modify
    have "category t g1 = category t emptyGrants"
      using normalizeKey_other [OF g1, of t] Modify by simp
    moreover have "normalizeKey d t g1 = Inr g" using g2 Modify by simp
    ultimately show ?thesis
      using step [of g1 g] by (simp add: category_emptyGrants)
  qed
qed

lemma normalizePermissionsShape_absent:
  assumes "readProp d (Access t) = Inr JUndefined"
  shows "\<exists>g. normalizePermissionsShape d = Inr g \<and> category t g = \<lparr>users = [], groups = []\<rparr>"
proof -
  obtain g where g: "normalizePermissionsShape d = Inr g"
    using normalizePermissionsShape_total by blast
  then have "category t g = \<lparr>users = [], groups = []\<rparr>"
    using normalizePermissionsShape_category [OF g assms] by simp
  with g show ?thesis by blast
qed


text \<open>
  C1. A legacy payload, an object whose \<open>view\<close> and \<open>modify\<close> properties are
  arrays, normalizes without error to the grant set whose users lists are those
  arrays, in their order, and whose groups lists are empty; so
  \<open>{view: [u1, u2], modify: []}\<close> gives
  \<open>{view: {users: [u1, u2], groups: []}, modify: {users: [], groups: []}}\<close>.
\<close>

theorem normalize_legacy_arrays:
  "(map_of kvs ''view'' = Some (JArr vs) \<and> map_of kvs ''modify'' = Some (JArr ms) \<longrightarrow>
      normalizePermissionsShape (JObj kvs) =
        Inr \<lparr>view = \<lparr>users = vs, groups = []\<rparr>, modify = \<lparr>users = ms, groups = []\<rparr>\<rparr>) \<and>
   normalizePermissionsShape (JObj [(''view'', JArr [u1, u2]), (''modify'', JArr [])]) =
     Inr \<lparr>view = \<lparr>users = [u1, u2], groups = []\<rparr>, modify = \<lparr>users = [], groups = []\<rparr>\<rparr>"
  by (simp add: normalizePermissionsShape_def normalizeKey_def emptyGrants_def)

theorem normalize_legacy_arrays_witness:
  "map_of [(''modify'', JArr [JObj [(''id'', JNum 3)]]), (''view'', JArr [JNum 1, JStr ''x''])] ''view''
     = Some (JArr [JNum 1, JStr ''x'']) \<and>
   map_of [(''modify'', JArr [JObj [(''id'', JNum 3)]]), (''view'', JArr [JNum 1, JStr ''x''])] ''modify''
     = Some (JArr [JObj [(''id'', JNum 3)]]) \<and>
   normalizePermissionsShape
     (JObj [(''modify'', JArr [JObj [(''id'', JNum 3)]]), (''view'', JArr [JNum 1, JStr ''x''])]) =
     Inr \<lparr>view = \<lparr>users = [JNum 1, JStr ''x''], groups = []\<rparr>,
          modify = \<lparr>users = [JObj [(''id'', JNum 3)]], groups = []\<rparr>\<rparr>"
  using normalize_legacy_arrays
    [of "[(''modify'', JArr [JObj [(''id'', JNum 3)]]), (''view'', JArr [JNum 1, JStr ''x''])]"
        "[JNum 1, JStr ''x'']" "[JObj [(''id'', JNum 3)]]"]
  by simp

text \<open>
  C2. \<open>null\<close>, \<open>undefined\<close> and \<open>{}\<close> normalize to the all-empty grant set, and
  so does every payload that is falsy or not of type object. No payload makes
  the normalization throw, and a category whose key the payload does not have
  comes out with empty users and groups lists.
\<close>

theorem normalize_malformed_is_empty:
  "normalizePermissionsShape JNull =
     Inr \<lparr>view = \<lparr>users = [], groups = []\<rparr>, modify = \<lparr>users = [], groups = []\<rparr>\<rparr> \<and>
   normalizePermissionsShape JUndefined =
     Inr \<lparr>view = \<lparr>users = [], groups = []\<rparr>, modify = \<lparr>users = [], groups = []\<rparr>\<rparr> \<and>
   normalizePermissionsShape (JObj []) =
     Inr \<lparr>view = \<lparr>users = [], groups = []\<rparr>, modify = \<lparr>users = [], groups = []\<rparr>\<rparr> \<and>
   (\<not> truthy d \<or> \<not> typeofObject d \<longrightarrow>
      normalizePermissionsShape d =
        Inr \<lparr>view = \<lparr>users = [], groups = []\<rparr>, modify = \<lparr>users = [], groups = []\<rparr>\<rparr>) \<and>
   (\<exists>g. normalizePermissionsShape d = Inr g) \<and>
   (readProp d (Access t) = Inr JUndefined \<longrightarrow>
      (\<exists>g. normalizePermissionsShape d = Inr g \<and> category t g = \<lparr>users = [], groups = []\<rparr>))"
proof -
  have "normalizePermissionsShape (JObj []) = Inr emptyGrants"
    by (simp add: normalizePermissionsShape_def normalizeKey_def)
  moreover have "\<not> truthy d \<or> \<not> typeofObject d \<longrightarrow> normalizePermissionsShape d = Inr emptyGrants"
    by (auto simp: normalizePermissionsShape_def)
  moreover have "normalizePermissionsShape JNull = Inr emptyGrants"
    "normalizePermissionsShape JUndefined = Inr emptyGrants"
    by (simp_all add: normalizePermissionsShape_def)
  ultimately show ?thesis
    using normalizePermissionsShape_total [of d] normalizePermissionsShape_absent [of d t]
    by (simp add: emptyGrants_def)
qed

theorem normalize_malformed_is_empty_witness:
  "\<not> typeofObject (JStr ''none'') \<and>
   normalizePermissionsShape (JStr ''none'') =
     Inr \<lparr>view = \<lparr>users = [], groups = []\<rparr>, modify = \<lparr>users = [], groups = []\<rparr>\<rparr> \<and>
   readProp (JStr ''none'') (Access View) = Inr JUndefined \<and>
   (\<exists>g. normalizePermissionsShape (JStr ''none'') = Inr g \<and>
        category View g = \<lparr>users = [], groups = []\<rparr>)"
  using normalize_malformed_is_empty [of "JStr ''none''" View]
  by simp

text \<open>
  C3. Normalizing the object of a grant set gives that grant set back, so
  normalizing twice is normalizing once, for every payload. More generally an
  object whose \<open>view\<close> and \<open>modify\<close> properties are objects with array-valued
  \<open>users\<close> and \<open>groups\<close> normalizes to exactly these four arrays, whatever
  the order of its properties and whatever else it holds.
\<close>

theorem normalize_idempotent:
  "normalizePermissionsShape (grantSetValue g) = Inr g \<and>
   (\<exists>g'. normalizePermissionsShape d = Inr g' \<and>
         normalizePermissionsShape (grantSetValue g') = normalizePermissionsShape d) \<and>
   (map_of kvs ''view'' = Some (JObj v) \<and> map_of v ''users'' = Some (JArr vu) \<and>
    map_of v ''groups'' = Some (JArr vg) \<and>
    map_of kvs ''modify'' = Some (JObj m) \<and> map_of m ''users'' = Some (JArr mu) \<and>
    map_of m ''groups'' = Some (JArr mg) \<longrightarrow>
      normalizePermissionsShape (JObj kvs) =
        Inr \<lparr>view = \<lparr>users = vu, groups = vg\<rparr>, modify = \<lparr>users = mu, groups = mg\<rparr>\<rparr>)"
proof -
  have fixed: "normalizePermissionsShape (grantSetValue h) = Inr h" for h
    by (simp add: normalizePermissionsShape_def normalizeKey_def emptyGrants_def
          grantSetValue_def accessListValue_def)
  obtain g' where g': "normalizePermissionsShape d = Inr g'"
    using normalizePermissionsShape_total by blast
  have shape: "map_of kvs ''view'' = Some (JObj v) \<and> map_of v ''users'' = Some (JArr vu) \<and>
    map_of v ''groups'' = Some (JArr vg) \<and>
    map_of kvs ''modify'' = Some (JObj m) \<and> map_of m ''users'' = Some (JArr mu) \<and>
    map_of m ''groups'' = Some (JArr mg) \<longrightarrow>
      normalizePermissionsShape (JObj kvs) =
        Inr \<lparr>view = \<lparr>users = vu, groups = vg\<rparr>, modify = \<lparr>users = mu, groups = mg\<rparr>\<rparr>"
    by (simp add: normalizePermissionsShape_def normalizeKey_def emptyGrants_def)
  show ?thesis using fixed [of g] fixed [of g'] g' shape by simp
qed

theorem normalize_idempotent_witness:
  "map_of [(''modify'', JObj [(''groups'', JArr []), (''users'', JArr [JNum 7])]),
           (''view'', JObj [(''users'', JArr []), (''groups'', JArr [JStr ''g''])])] ''view''
     = Some (JObj [(''users'', JArr []), (''groups'', JArr [JStr ''g''])]) \<and>
   map_of [(''modify'', JObj [(''groups'', JArr []), (''users'', JArr [JNum 7])]),
           (''view'', JObj [(''users'', JArr []), (''groups'', JArr [JStr ''g''])])] ''modify''
     = Some (JObj [(''groups'', JArr []), (''users'', JArr [JNum 7])]) \<and>
   map_of [(''users'', JArr []), (''groups'', JArr [JStr ''g''])] ''users'' = Some (JArr []) \<and>
   map_of [(''users'', JArr []), (''groups'', JArr [JStr ''g''])] ''groups''
     = Some (JArr [JStr ''g'']) \<and>
   map_of [(''groups'', JArr []), (''users'', JArr [JNum 7])] ''users'' = Some (JArr [JNum 7]) \<and>
   map_of [(''groups'', JArr []), (''users'', JArr [JNum 7])] ''groups'' = Some (JArr []) \<and>
   normalizePermissionsShape
     (JObj [(''modify'', JObj [(''groups'', JArr []), (''users'', JArr [JNum 7])]),
            (''view'', JObj [(''users'', JArr []), (''groups'', JArr [JStr ''g''])])]) =
     Inr \<lparr>view = \<lparr>users = [], groups = [JStr ''g'']\<rparr>,
          modify = \<lparr>users = [JNum 7], groups = []\<rparr>\<rparr>"
  using normalize_idempotent
    [of undefined undefined
        "[(''modify'', JObj [(''groups'', JArr []), (''users'', JArr [JNum 7])]),
          (''view'', JObj [(''users'', JArr []), (''groups'', JArr [JStr ''g''])])]"
        "[(''users'', JArr []), (''groups'', JArr [JStr ''g''])]" "[]" "[JStr ''g'']"
        "[(''groups'', JArr []), (''users'', JArr [JNum 7])]" "[JNum 7]" "[]"]
  by simp

section \<open>Properties of the selection filters\<close>

lemma readProp_error: "readProp v k = Inl e \<longleftrightarrow> nullish v"
  by (cases v; cases e) simp_all

lemma readProp_lodashGet: "\<not> nullish v \<Longrightarrow> readProp v k = Inr (lodashGet v k)"
  by (cases v) (simp_all add: lodashGet_def)

lemma filterE_readProp:
  "filterE (\<lambda>x. case readProp x k of Inl e \<Rightarrow> Inl e | Inr i \<Rightarrow> Inr (q i)) xs =
     (if \<forall>x\<in>set xs. \<not> nullish x then Inr (filter (\<lambda>x. q (lodashGet x k)) xs) else Inl TypeError)"
proof (induction xs)
  case Nil show ?case by simp
next
  case (Cons x xs)
  show ?case
  proof (cases "nullish x")
    case True
    then have "readProp x k = Inl TypeError" by (simp add: readProp_error)
    with True show ?thesis by simp
  next
    case False
    then have "readProp x k = Inr (lodashGet x k)" by (rule readProp_lodashGet)
    with False Cons.IH show ?thesis by simp
  qed
qed

lemma mapE_readProp:
  "mapE (\<lambda>x. readProp x k) xs =
     (if \<forall>x\<in>set xs. \<not> nullish x then Inr (map (\<lambda>x. lodashGet x k) xs) else Inl TypeError)"
proof (induction xs)
  case Nil show ?case by simp
next
  case (Cons x xs)
  show ?case
  proof (cases "nullish x")
    case True
    then have "readProp x k = Inl TypeError" by (simp add: readProp_error)
    with True show ?thesis by simp
  next
    case False
    then have "readProp x k = Inr (lodashGet x k)" by (rule readProp_lodashGet)
    with False Cons.IH show ?thesis by simp
  qed
qed

lemma availableGroups_eq:
  "availableGroups g directory =
     (if isArray directory \<and>
         (\<forall>x\<in>set (groups (view g) @ groups (modify g) @ elements directory). \<not> nullish x)
      then Inr (filter (\<lambda>x. \<not> (\<exists>y\<in>set (groups (view g) @ groups (modify g)).
                                 strictEquals (lodashGet y Ident) (lodashGet x Ident)))
                  (elements directory))
      else Inl TypeError)"
proof -
  let ?vs = "groups (view g)" and ?ms = "groups (modify g)"
  show ?thesis
  proof (cases "\<forall>x\<in>set ?vs. \<not> nullish x")
    case False
    then show ?thesis by (auto simp: availableGroups_def mapE_readProp)
  next
    case vs: True
    show ?thesis
    proof (cases "\<forall>x\<in>set ?ms. \<not> nullish x")
      case False
      with vs show ?thesis by (auto simp: availableGroups_def mapE_readProp)
    next
      case ms: True
      from vs ms show ?thesis
        by (simp add: availableGroups_def mapE_readProp filterE_readProp setHas_def
              list_ex_iff ball_Un bex_Un)
    qed
  qed
qed

text \<open>
  C4. A user whose id is strictly equal to the author's has the permission, for
  both access types and whatever the grant lists hold: the comparison with the
  author comes first and the lists are not read.
\<close>

theorem author_has_permission:
  "readProp u Ident = Inr i \<Longrightarrow> readProp author Ident = Inr j \<Longrightarrow> strictEquals i j \<Longrightarrow>
   userHasPermission deepMatch author g u t = Inr True"
  by (simp add: userHasPermission_def)

theorem author_has_permission_witness:
  "readProp (JObj [(''id'', JNum 5)]) Ident = Inr (JNum 5) \<and>
   readProp (JObj [(''id'', JNum 5), (''name'', JStr ''ann'')]) Ident = Inr (JNum 5) \<and>
   strictEquals (JNum 5) (JNum 5) \<and>
   userHasPermission (\<lambda>a b. False) (JObj [(''id'', JNum 5), (''name'', JStr ''ann'')])
     emptyGrants (JObj [(''id'', JNum 5)]) Modify = Inr True"
proof -
  have h: "readProp (JObj [(''id'', JNum 5)]) Ident = Inr (JNum 5)"
    "readProp (JObj [(''id'', JNum 5), (''name'', JStr ''ann'')]) Ident = Inr (JNum 5)"
    "strictEquals (JNum 5) (JNum 5)"
    by (simp_all add: strictEquals_def)
  show ?thesis
    using h author_has_permission [OF h, of "\<lambda>a b. False" emptyGrants Modify] by simp
qed

lemma find_exists: "x \<in> set xs \<Longrightarrow> p x \<Longrightarrow> \<exists>y. List.find p xs = Some y \<and> p y"
  by (induction xs) auto

lemma matchesId_primitive:
  "\<not> composite i \<Longrightarrow> matchesId deepMatch i e \<Longrightarrow> lodashGet e Ident = i"
  by (cases "readProp e Ident") (simp_all add: matchesId_def lodashGet_def strictEquals_def)

text \<open>
  What the filter does achieve: a user whose id is a truthy primitive and is the
  id of a user in \<open>grants[type].users\<close> has the permission, and is not offered.
\<close>

lemma userHasPermission_granted:
  assumes e: "e \<in> set (users (category t g))"
    and eid: "readProp e Ident = Inr i" and uid: "readProp u Ident = Inr i"
    and aid: "readProp author Ident = Inr j"
    and prim: "\<not> composite i" and tr: "truthy i"
  shows "userHasPermission deepMatch author g u t = Inr True"
proof -
  have "i \<noteq> JUndefined" using tr by auto
  with eid prim have "matchesId deepMatch i e"
    by (simp add: matchesId_def strictEquals_def)
  with e have "\<exists>y. List.find (matchesId deepMatch i) (users (category t g)) = Some y \<and>
      matchesId deepMatch i y"
    by (rule find_exists)
  then obtain y where y: "List.find (matchesId deepMatch i) (users (category t g)) = Some y"
      and my: "matchesId deepMatch i y"
    by (elim exE conjE)
  have "lodashGet y Ident = i" using matchesId_primitive [OF prim my] .
  with y tr uid aid show ?thesis
    by (simp add: userHasPermission_def lodashFind_def)
qed

lemma filterE_kept: "filterE p xs = Inr ys \<Longrightarrow> x \<in> set ys \<Longrightarrow> p x = Inr True"
proof (induction xs arbitrary: ys)
  case Nil
  then show ?case by simp
next
  case (Cons a xs)
  show ?case
  proof (cases "p a")
    case (Inl e)
    with Cons.prems(1) show ?thesis by simp
  next
    case (Inr b)
    show ?thesis
    proof (cases "filterE p xs")
      case (Inl e)
      with Inr Cons.prems(1) show ?thesis by simp
    next
      case zs: (Inr zs)
      with Inr Cons.prems(1) have ys: "ys = (if b then a # zs else zs)" by simp
      show ?thesis
      proof (cases "x \<in> set zs")
        case True
        with zs show ?thesis by (rule Cons.IH)
      next
        case False
        with ys Cons.prems(2) have "b" "x = a" by (simp_all split: if_splits)
        with Inr show ?thesis by simp
      qed
    qed
  qed
qed


lemma offeredUsers_excludes_granted:
  assumes "offeredUsers deepMatch author g t found = Inr offered"
    and "e \<in> set (users (category t g))"
    and "readProp e Ident = Inr i" and "readProp u Ident = Inr i"
    and "readProp author Ident = Inr j"
    and "\<not> composite i" and "truthy i"
  shows "u \<notin> set offered"
proof
  assume u: "u \<in> set offered"
  from assms(1) have "filterE (shouldShowUser deepMatch author g t) (elements found) = Inr offered"
    by (simp add: offeredUsers_def split: if_splits)
  then have "shouldShowUser deepMatch author g t u = Inr True"
    using u by (rule filterE_kept)
  moreover have "userHasPermission deepMatch author g u t = Inr True"
    using assms(2-7) by (rule userHasPermission_granted)
  ultimately show False by (simp add: shouldShowUser_def)
qed

text \<open>
  C5. The claim fails where the id is falsy. With the author's id 1 and the user
  \<open>{id: 0, name: "root"}\<close> in \<open>grants.view.users\<close>, \<open>find\<close> returns that user,
  \<open>get\<close> returns its id 0, and \<open>!!0\<close> is false: \<open>userHasPermission\<close> answers
  false, and the view search offers the user although it holds the grant.
\<close>

theorem granted_user_with_falsy_id_is_offered:
  "userHasPermission deepMatch (JObj [(''id'', JNum 1)])
     \<lparr>view = \<lparr>users = [JObj [(''id'', JNum 0), (''name'', JStr ''root'')]], groups = []\<rparr>,
      modify = \<lparr>users = [], groups = []\<rparr>\<rparr>
     (JObj [(''id'', JNum 0), (''name'', JStr ''root'')]) View = Inr False \<and>
   offeredUsers deepMatch (JObj [(''id'', JNum 1)])
     \<lparr>view = \<lparr>users = [JObj [(''id'', JNum 0), (''name'', JStr ''root'')]], groups = []\<rparr>,
      modify = \<lparr>users = [], groups = []\<rparr>\<rparr>
     View (JArr [JObj [(''id'', JNum 0), (''name'', JStr ''root'')]]) =
     Inr [JObj [(''id'', JNum 0), (''name'', JStr ''root'')]]"
  by (simp add: offeredUsers_def shouldShowUser_def userHasPermission_def lodashFind_def
        lodashGet_def matchesId_def strictEquals_def)

theorem granted_user_with_falsy_id_is_offered_witness:
  "offeredUsers (\<lambda>a b. False) (JObj [(''id'', JNum 1)])
     \<lparr>view = \<lparr>users = [JObj [(''id'', JNum 0), (''name'', JStr ''root'')]], groups = []\<rparr>,
      modify = \<lparr>users = [], groups = []\<rparr>\<rparr>
     View (JArr [JObj [(''id'', JNum 0), (''name'', JStr ''root'')]]) =
     Inr [JObj [(''id'', JNum 0), (''name'', JStr ''root'')]]"
  using granted_user_with_falsy_id_is_offered [of "\<lambda>a b. False"]
  by simp

text \<open>
  C6. \<open>availableGroups\<close> throws a TypeError when the directory is not an array
  or when a granted group or a directory entry is \<open>undefined\<close> or \<open>null\<close>;
  otherwise it is the directory, in its order, without the entries whose id is
  the id of a group granted under \<open>view\<close> or under \<open>modify\<close>. So no offered
  group has the id of a group granted under \<open>view\<close>, whichever category the
  selection is for.
\<close>

theorem availableGroups_excludes_granted:
  "availableGroups g directory =
     (if isArray directory \<and>
         (\<forall>x\<in>set (groups (view g) @ groups (modify g) @ elements directory). \<not> nullish x)
      then Inr (filter (\<lambda>x. \<not> (\<exists>y\<in>set (groups (view g) @ groups (modify g)).
                                 strictEquals (lodashGet y Ident) (lodashGet x Ident)))
                  (elements directory))
      else Inl TypeError) \<and>
   (availableGroups g directory = Inr offered \<longrightarrow>
      (\<forall>y\<in>set (groups (view g)). \<forall>x\<in>set offered.
          \<not> strictEquals (lodashGet y Ident) (lodashGet x Ident)))"
proof -
  have "\<forall>y\<in>set (groups (view g)). \<forall>x\<in>set offered.
          \<not> strictEquals (lodashGet y Ident) (lodashGet x Ident)"
    if "availableGroups g directory = Inr offered"
    using that unfolding availableGroups_eq by (auto split: if_splits)
  then show ?thesis using availableGroups_eq by blast
qed

theorem availableGroups_excludes_granted_witness:
  "isArray (JArr [JObj [(''id'', JNum 1), (''name'', JStr ''admin'')],
                  JObj [(''id'', JNum 2), (''name'', JStr ''default'')],
                  JObj [(''id'', JNum 3), (''name'', JStr ''ops'')]]) \<and>
   list_all (\<lambda>x. \<not> nullish x)
     [JObj [(''id'', JNum 1), (''name'', JStr ''admin'')],
      JObj [(''id'', JNum 2), (''name'', JStr ''default'')],
      JObj [(''id'', JNum 1), (''name'', JStr ''admin'')],
      JObj [(''id'', JNum 2), (''name'', JStr ''default'')],
      JObj [(''id'', JNum 3), (''name'', JStr ''ops'')]] \<and>
   availableGroups
     \<lparr>view = \<lparr>users = [], groups = [JObj [(''id'', JNum 1), (''name'', JStr ''admin'')]]\<rparr>,
      modify = \<lparr>users = [], groups = [JObj [(''id'', JNum 2), (''name'', JStr ''default'')]]\<rparr>\<rparr>
     (JArr [JObj [(''id'', JNum 1), (''name'', JStr ''admin'')],
            JObj [(''id'', JNum 2), (''name'', JStr ''default'')],
            JObj [(''id'', JNum 3), (''name'', JStr ''ops'')]]) =
     Inr [JObj [(''id'', JNum 3), (''name'', JStr ''ops'')]] \<and>
   \<not> strictEquals (lodashGet (JObj [(''id'', JNum 1), (''name'', JStr ''admin'')]) Ident)
       (lodashGet (JObj [(''id'', JNum 3), (''name'', JStr ''ops'')]) Ident)"
  using availableGroups_excludes_granted
    [of "\<lparr>view = \<lparr>users = [], groups = [JObj [(''id'', JNum 1), (''name'', JStr ''admin'')]]\<rparr>,
      modify = \<lparr>users = [], groups = [JObj [(''id'', JNum 2), (''name'', JStr ''default'')]]\<rparr>\<rparr>"
      "JArr [JObj [(''id'', JNum 1), (''name'', JStr ''admin'')],
            JObj [(''id'', JNum 2), (''name'', JStr ''default'')],
            JObj [(''id'', JNum 3), (''name'', JStr ''ops'')]]"
      "[JObj [(''id'', JNum 3), (''name'', JStr ''ops'')]]"]
  by (simp add: lodashGet_def strictEquals_def)

section \<open>Properties of loading, granting and revoking\<close>

lemma listAllGroups_fulfilled:
  "\<exists>directory. listAllGroups groupsReply =
      ([Request GET ''/api/groups'' None], Fulfilled directory)"
proof (cases groupsReply)
  case Rejected
  then show ?thesis
    by (simp add: listAllGroups_def catchDo_def thenDo_def request_def)
next
  case (Fulfilled res)
  show ?thesis
  proof (cases "isArray res")
    case True
    with Fulfilled show ?thesis
      by (simp add: listAllGroups_def catchDo_def thenDo_def request_def)
  next
    case False
    with Fulfilled show ?thesis
      by (cases "readProp res Results")
         (simp_all add: listAllGroups_def catchDo_def thenDo_def request_def)
  qed
qed

lemma loadAllChain_effects:
  "\<exists>g directory.
     normalizePermissionsShape (case permReply of Fulfilled p \<Rightarrow> p | Rejected \<Rightarrow> JObj []) = Inr g \<and>
     loadAllChain aclUrl permReply groupsReply =
       ([Request GET aclUrl None, Request GET ''/api/groups'' None,
         SetGrants g, SetAllGroups directory, SetLoading False], Fulfilled ())"
proof -
  obtain directory where dir:
    "listAllGroups groupsReply = ([Request GET ''/api/groups'' None], Fulfilled directory)"
    using listAllGroups_fulfilled by blast
  obtain g where g:
    "normalizePermissionsShape (case permReply of Fulfilled p \<Rightarrow> p | Rejected \<Rightarrow> JObj []) = Inr g"
    using normalizePermissionsShape_total by blast
  have "loadAllChain aclUrl permReply groupsReply =
       ([Request GET aclUrl None, Request GET ''/api/groups'' None,
         SetGrants g, SetAllGroups directory, SetLoading False], Fulfilled ())"
    using g
    by (cases permReply)
       (simp_all add: loadAllChain_def dir finallyDo_def catchDo_def thenDo_def
          promiseAll_def request_def)
  with g show ?thesis by blast
qed

lemma loadAll_effects:
  "\<exists>g directory.
     normalizePermissionsShape (case permReply of Fulfilled p \<Rightarrow> p | Rejected \<Rightarrow> JObj []) = Inr g \<and>
     loadAll aclUrl permReply groupsReply =
       [SetLoading True, Request GET aclUrl None, Request GET ''/api/groups'' None,
         SetGrants g, SetAllGroups directory, SetLoading False]"
  using loadAllChain_effects [of permReply aclUrl groupsReply]
  by (auto simp: loadAll_def)


lemma mutation_fulfilled:
  "(op, m, k) \<in>
     {(grantUser, POST, ''user_id''), (revokeUser, DELETE, ''user_id''),
      (grantGroup, POST, ''group_id''), (revokeGroup, DELETE, ''group_id'')} \<Longrightarrow>
   m \<noteq> GET \<and>
   op aclUrl (Fulfilled r) permReply groupsReply t ident =
     (Request m aclUrl
        (Some (JObj [(''access_type'', JStr (nameString (Access t))), (k, ident)])) #
      loadAll aclUrl permReply groupsReply, Fulfilled ())"
  by (elim insertE emptyE)
     (simp_all add: grantUser_def revokeUser_def grantGroup_def revokeGroup_def
        catchDo_def thenDo_def request_def)

text \<open>
  C7. When the mutating request of any of the four operations succeeds, its
  effects are that request, carrying the access type and the identifier,
  followed by those of one run of \<open>loadAll\<close>, and its promise is fulfilled: one
  reload, no notification, and a single call of \<open>setGrants\<close>, the reload's,
  with the normalization of the payload the reload fetched. The grants shown
  afterwards are what the server returned to the reload, whatever state the
  dialog was in and whatever was granted or revoked. When the reload's fetch of
  the payload succeeds, the users that payload lists for a category, in either
  shape, are the users shown for it: user 7 is in the \<open>modify\<close> list after
  \<open>grantUser("modify", 7)\<close> provided the payload lists it there. When that fetch
  fails the grants shown are all empty.
\<close>

theorem successful_mutation_reloads_once:
  assumes "(op, m, k) \<in>
     {(grantUser, POST, ''user_id''), (revokeUser, DELETE, ''user_id''),
      (grantGroup, POST, ''group_id''), (revokeGroup, DELETE, ''group_id'')}"
  shows "\<exists>g.
     fst (op aclUrl (Fulfilled r) permReply groupsReply t ident) =
       Request m aclUrl
         (Some (JObj [(''access_type'', JStr (nameString (Access t))), (k, ident)])) #
       loadAll aclUrl permReply groupsReply \<and>
     snd (op aclUrl (Fulfilled r) permReply groupsReply t ident) = Fulfilled () \<and>
     mutations (fst (op aclUrl (Fulfilled r) permReply groupsReply t ident)) =
       [Request m aclUrl
          (Some (JObj [(''access_type'', JStr (nameString (Access t))), (k, ident)]))] \<and>
     reloads (fst (op aclUrl (Fulfilled r) permReply groupsReply t ident)) = 1 \<and>
     notifications (fst (op aclUrl (Fulfilled r) permReply groupsReply t ident)) = [] \<and>
     normalizePermissionsShape (case permReply of Fulfilled p \<Rightarrow> p | Rejected \<Rightarrow> JObj []) = Inr g \<and>
     grantsStored (fst (op aclUrl (Fulfilled r) permReply groupsReply t ident)) = [g] \<and>
     grants (run (fst (op aclUrl (Fulfilled r) permReply groupsReply t ident)) d) = g \<and>
     loading (run (fst (op aclUrl (Fulfilled r) permReply groupsReply t ident)) d) = False \<and>
     (permReply = Rejected \<longrightarrow>
        g = \<lparr>view = \<lparr>users = [], groups = []\<rparr>, modify = \<lparr>users = [], groups = []\<rparr>\<rparr>) \<and>
     (\<forall>p us. permReply = Fulfilled p \<and> readProp p (Access c) = Inr (JArr us) \<longrightarrow>
        users (category c g) = us) \<and>
     (\<forall>p kvs us. permReply = Fulfilled p \<and> readProp p (Access c) = Inr (JObj kvs) \<and>
        map_of kvs ''users'' = Some (JArr us) \<longrightarrow> users (category c g) = us)"
proof -
  let ?req = "Request m aclUrl
         (Some (JObj [(''access_type'', JStr (nameString (Access t))), (k, ident)]))"
  have m: "m \<noteq> GET"
    and op: "op aclUrl (Fulfilled r) permReply groupsReply t ident =
       (?req # loadAll aclUrl permReply groupsReply, Fulfilled ())"
    using mutation_fulfilled [OF assms] by simp_all
  obtain g directory where
    g: "normalizePermissionsShape (case permReply of Fulfilled p \<Rightarrow> p | Rejected \<Rightarrow> JObj []) = Inr g"
    and l: "loadAll aclUrl permReply groupsReply =
       [SetLoading True, Request GET aclUrl None, Request GET ''/api/groups'' None,
         SetGrants g, SetAllGroups directory, SetLoading False]"
    using loadAll_effects by blast
  have "fst (op aclUrl (Fulfilled r) permReply groupsReply t ident) =
       ?req # loadAll aclUrl permReply groupsReply"
    by (simp add: op)
  moreover have "mutations (?req # loadAll aclUrl permReply groupsReply) = [?req]"
    using m by (simp add: l mutations_def)
  moreover have "reloads (?req # loadAll aclUrl permReply groupsReply) = 1"
    by (simp add: l reloads_def)
  moreover have "notifications (?req # loadAll aclUrl permReply groupsReply) = []"
    by (simp add: l notifications_def)
  moreover have "grantsStored (?req # loadAll aclUrl permReply groupsReply) = [g]"
    by (simp add: l grantsStored_def)
  moreover have "grants (run (?req # loadAll aclUrl permReply groupsReply) d) = g"
    "loading (run (?req # loadAll aclUrl permReply groupsReply) d) = False"
    by (simp_all add: l run_def)
  moreover have "g = \<lparr>view = \<lparr>users = [], groups = []\<rparr>, modify = \<lparr>users = [], groups = []\<rparr>\<rparr>"
    if "permReply = Rejected"
    using g that
    by (simp add: normalizePermissionsShape_def normalizeKey_def emptyGrants_def)
  moreover have "users (category c g) = us"
    if "permReply = Fulfilled p" "readProp p (Access c) = Inr (JArr us)" for p us
    using normalizePermissionsShape_category [of p g c "JArr us"] g that by simp
  moreover have "users (category c g) = us"
    if "permReply = Fulfilled p" "readProp p (Access c) = Inr (JObj kvs)"
      "map_of kvs ''users'' = Some (JArr us)" for p kvs us
    using normalizePermissionsShape_category [of p g c "JObj kvs"] g that
    by (simp add: lodashGet_def)
  ultimately show ?thesis using g op by simp
qed

theorem successful_mutation_reloads_once_witness:
  "(grantUser, POST, ''user_id'') \<in>
     {(grantUser, POST, ''user_id''), (revokeUser, DELETE, ''user_id''),
      (grantGroup, POST, ''group_id''), (revokeGroup, DELETE, ''group_id'')} \<and>
   readProp (JObj [(''view'', JArr []), (''modify'', JArr [JObj [(''id'', JNum 7)]])])
     (Access Modify) = Inr (JArr [JObj [(''id'', JNum 7)]]) \<and>
   fst (grantUser ''/api/permissions/queries/1'' (Fulfilled JNull)
         (Fulfilled (JObj [(''view'', JArr []), (''modify'', JArr [JObj [(''id'', JNum 7)]])]))
         (Fulfilled (JArr [])) Modify (JNum 7)) =
     [Request POST ''/api/permissions/queries/1''
        (Some (JObj [(''access_type'', JStr ''modify''), (''user_id'', JNum 7)])),
      SetLoading True,
      Request GET ''/api/permissions/queries/1'' None,
      Request GET ''/api/groups'' None,
      SetGrants \<lparr>view = \<lparr>users = [], groups = []\<rparr>,
                 modify = \<lparr>users = [JObj [(''id'', JNum 7)]], groups = []\<rparr>\<rparr>,
      SetAllGroups (JArr []),
      SetLoading False] \<and>
   users (modify (grants (run (fst (grantUser ''/api/permissions/queries/1'' (Fulfilled JNull)
         (Fulfilled (JObj [(''view'', JArr []), (''modify'', JArr [JObj [(''id'', JNum 7)]])]))
         (Fulfilled (JArr [])) Modify (JNum 7))) initialDialog))) = [JObj [(''id'', JNum 7)]]"
proof -
  have n: "normalizePermissionsShape
      (JObj [(''view'', JArr []), (''modify'', JArr [JObj [(''id'', JNum 7)]])]) =
     Inr \<lparr>view = \<lparr>users = [], groups = []\<rparr>,
          modify = \<lparr>users = [JObj [(''id'', JNum 7)]], groups = []\<rparr>\<rparr>"
    by (simp add: normalizePermissionsShape_def normalizeKey_def emptyGrants_def)
  have l: "loadAll ''/api/permissions/queries/1''
         (Fulfilled (JObj [(''view'', JArr []), (''modify'', JArr [JObj [(''id'', JNum 7)]])]))
         (Fulfilled (JArr [])) =
      [SetLoading True,
      Request GET ''/api/permissions/queries/1'' None,
      Request GET ''/api/groups'' None,
      SetGrants \<lparr>view = \<lparr>users = [], groups = []\<rparr>,
                 modify = \<lparr>users = [JObj [(''id'', JNum 7)]], groups = []\<rparr>\<rparr>,
      SetAllGroups (JArr []),
      SetLoading False]"
    by (simp add: loadAll_def loadAllChain_def listAllGroups_def finallyDo_def catchDo_def
          thenDo_def promiseAll_def request_def n)
  have p: "fst (grantUser ''/api/permissions/queries/1'' (Fulfilled JNull)
         (Fulfilled (JObj [(''view'', JArr []), (''modify'', JArr [JObj [(''id'', JNum 7)]])]))
         (Fulfilled (JArr [])) Modify (JNum 7)) =
      Request POST ''/api/permissions/queries/1''
        (Some (JObj [(''access_type'', JStr ''modify''), (''user_id'', JNum 7)])) #
      loadAll ''/api/permissions/queries/1''
         (Fulfilled (JObj [(''view'', JArr []), (''modify'', JArr [JObj [(''id'', JNum 7)]])]))
         (Fulfilled (JArr []))"
    by (simp add: grantUser_def catchDo_def thenDo_def request_def)
  show ?thesis
    using successful_mutation_reloads_once
      [of grantUser POST "''user_id''" "''/api/permissions/queries/1''" JNull
          "Fulfilled (JObj [(''view'', JArr []), (''modify'', JArr [JObj [(''id'', JNum 7)]])])"
          "Fulfilled (JArr [])" Modify "JNum 7" initialDialog Modify]
    by (simp add: p l n)
qed

text \<open>
  The claim as stated, without that proviso, fails: \<open>grantUser("modify", 7)\<close>
  succeeds, the one reload follows, its fetch of the payload fails, and the
  \<open>modify\<close> list shown once the reload has completed is empty.
\<close>

theorem granted_user_absent_when_reload_fetch_fails:
  "fst (grantUser ''/api/permissions/queries/1'' (Fulfilled JNull) Rejected
         (Fulfilled (JArr [])) Modify (JNum 7)) =
     [Request POST ''/api/permissions/queries/1''
        (Some (JObj [(''access_type'', JStr ''modify''), (''user_id'', JNum 7)])),
      SetLoading True,
      Request GET ''/api/permissions/queries/1'' None,
      Request GET ''/api/groups'' None,
      SetGrants \<lparr>view = \<lparr>users = [], groups = []\<rparr>, modify = \<lparr>users = [], groups = []\<rparr>\<rparr>,
      SetAllGroups (JArr []),
      SetLoading False] \<and>
   snd (grantUser ''/api/permissions/queries/1'' (Fulfilled JNull) Rejected
         (Fulfilled (JArr [])) Modify (JNum 7)) = Fulfilled () \<and>
   reloads (fst (grantUser ''/api/permissions/queries/1'' (Fulfilled JNull) Rejected
         (Fulfilled (JArr [])) Modify (JNum 7))) = 1 \<and>
   loading (run (fst (grantUser ''/api/permissions/queries/1'' (Fulfilled JNull) Rejected
         (Fulfilled (JArr [])) Modify (JNum 7))) initialDialog) = False \<and>
   users (modify (grants (run (fst (grantUser ''/api/permissions/queries/1'' (Fulfilled JNull)
         Rejected (Fulfilled (JArr [])) Modify (JNum 7))) initialDialog))) = [] \<and>
   \<not> list_ex (\<lambda>x. lodashGet x Ident = JNum 7)
       (users (modify (grants (run (fst (grantUser ''/api/permissions/queries/1''
         (Fulfilled JNull) Rejected (Fulfilled (JArr [])) Modify (JNum 7))) initialDialog))))"
proof -
  have n: "normalizePermissionsShape (JObj []) =
      Inr \<lparr>view = \<lparr>users = [], groups = []\<rparr>, modify = \<lparr>users = [], groups = []\<rparr>\<rparr>"
    by (simp add: normalizePermissionsShape_def normalizeKey_def emptyGrants_def)
  have l: "loadAll ''/api/permissions/queries/1'' Rejected (Fulfilled (JArr [])) =
      [SetLoading True,
       Request GET ''/api/permissions/queries/1'' None,
       Request GET ''/api/groups'' None,
       SetGrants \<lparr>view = \<lparr>users = [], groups = []\<rparr>, modify = \<lparr>users = [], groups = []\<rparr>\<rparr>,
       SetAllGroups (JArr []),
       SetLoading False]"
    by (simp add: loadAll_def loadAllChain_def listAllGroups_def finallyDo_def catchDo_def
          thenDo_def promiseAll_def request_def n)
  have p: "grantUser ''/api/permissions/queries/1'' (Fulfilled JNull) Rejected
         (Fulfilled (JArr [])) Modify (JNum 7) =
      (Request POST ''/api/permissions/queries/1''
        (Some (JObj [(''access_type'', JStr ''modify''), (''user_id'', JNum 7)])) #
       loadAll ''/api/permissions/queries/1'' Rejected (Fulfilled (JArr [])), Fulfilled ())"
    by (simp add: grantUser_def catchDo_def thenDo_def request_def)
  show ?thesis
    by (simp add: p l reloads_def run_def)
qed

text \<open>
  C8. When the fetch of the permission payload fails, \<open>loadAll\<close> stores the
  all-empty grant set, whatever the grants were before, ends with
  \<open>setLoading(false)\<close>, notifies nothing, and its chain is fulfilled.
\<close>

theorem failed_permission_fetch_gives_empty_grants:
  "(\<exists>directory.
      loadAll aclUrl Rejected groupsReply =
        [SetLoading True, Request GET aclUrl None, Request GET ''/api/groups'' None,
         SetGrants \<lparr>view = \<lparr>users = [], groups = []\<rparr>, modify = \<lparr>users = [], groups = []\<rparr>\<rparr>,
         SetAllGroups directory, SetLoading False]) \<and>
   snd (loadAllChain aclUrl Rejected groupsReply) = Fulfilled () \<and>
   notifications (loadAll aclUrl Rejected groupsReply) = [] \<and>
   grantsStored (loadAll aclUrl Rejected groupsReply) =
     [\<lparr>view = \<lparr>users = [], groups = []\<rparr>, modify = \<lparr>users = [], groups = []\<rparr>\<rparr>] \<and>
   grants (run (loadAll aclUrl Rejected groupsReply) d) =
     \<lparr>view = \<lparr>users = [], groups = []\<rparr>, modify = \<lparr>users = [], groups = []\<rparr>\<rparr> \<and>
   loading (run (loadAll aclUrl Rejected groupsReply) d) = False"
proof -
  have empty: "normalizePermissionsShape (JObj []) = Inr emptyGrants"
    by (simp add: normalizePermissionsShape_def normalizeKey_def)
  obtain g directory where
    "normalizePermissionsShape (JObj []) = Inr g"
    and chain: "loadAllChain aclUrl Rejected groupsReply =
       ([Request GET aclUrl None, Request GET ''/api/groups'' None,
         SetGrants g, SetAllGroups directory, SetLoading False], Fulfilled ())"
    using loadAllChain_effects [of Rejected aclUrl groupsReply] by auto
  with empty have g: "g = emptyGrants" by simp
  show ?thesis
    by (simp add: loadAll_def chain g emptyGrants_def notifications_def grantsStored_def run_def)
qed

theorem failed_permission_fetch_gives_empty_grants_witness:
  "loadAll ''/acl'' Rejected (Fulfilled (JObj [(''results'', JArr [JObj [(''id'', JNum 2)]])])) =
     [SetLoading True, Request GET ''/acl'' None, Request GET ''/api/groups'' None,
      SetGrants \<lparr>view = \<lparr>users = [], groups = []\<rparr>, modify = \<lparr>users = [], groups = []\<rparr>\<rparr>,
      SetAllGroups (JArr [JObj [(''id'', JNum 2)]]), SetLoading False] \<and>
   grants (run (loadAll ''/acl'' Rejected
       (Fulfilled (JObj [(''results'', JArr [JObj [(''id'', JNum 2)]])])))
     \<lparr>loading = False,
      grants = \<lparr>view = \<lparr>users = [JObj [(''id'', JNum 9)]], groups = []\<rparr>,
                modify = \<lparr>users = [], groups = []\<rparr>\<rparr>,
      allGroups = JArr []\<rparr>) =
     \<lparr>view = \<lparr>users = [], groups = []\<rparr>, modify = \<lparr>users = [], groups = []\<rparr>\<rparr> \<and>
   loading (run (loadAll ''/acl'' Rejected
       (Fulfilled (JObj [(''results'', JArr [JObj [(''id'', JNum 2)]])])))
     \<lparr>loading = False,
      grants = \<lparr>view = \<lparr>users = [JObj [(''id'', JNum 9)]], groups = []\<rparr>,
                modify = \<lparr>users = [], groups = []\<rparr>\<rparr>,
      allGroups = JArr []\<rparr>) = False"
proof -
  have n: "normalizePermissionsShape (JObj []) =
      Inr \<lparr>view = \<lparr>users = [], groups = []\<rparr>, modify = \<lparr>users = [], groups = []\<rparr>\<rparr>"
    by (simp add: normalizePermissionsShape_def normalizeKey_def emptyGrants_def)
  have l: "loadAll ''/acl'' Rejected (Fulfilled (JObj [(''results'', JArr [JObj [(''id'', JNum 2)]])])) =
     [SetLoading True, Request GET ''/acl'' None, Request GET ''/api/groups'' None,
      SetGrants \<lparr>view = \<lparr>users = [], groups = []\<rparr>, modify = \<lparr>users = [], groups = []\<rparr>\<rparr>,
      SetAllGroups (JArr [JObj [(''id'', JNum 2)]]), SetLoading False]"
    by (simp add: loadAll_def loadAllChain_def listAllGroups_def finallyDo_def catchDo_def
          thenDo_def promiseAll_def request_def n)
  show ?thesis
    using failed_permission_fetch_gives_empty_grants
      [of "''/acl''" "Fulfilled (JObj [(''results'', JArr [JObj [(''id'', JNum 2)]])])"
          "\<lparr>loading = False,
            grants = \<lparr>view = \<lparr>users = [JObj [(''id'', JNum 9)]], groups = []\<rparr>,
                      modify = \<lparr>users = [], groups = []\<rparr>\<rparr>,
            allGroups = JArr []\<rparr>"]
    by (simp add: l)
qed

text \<open>
  C9. When the mutating request fails, the operation performs that one request
  and one notification, with the message of its kind, and nothing else: no
  second request, no reload, no call of a state setter, so the dialog state is
  unchanged; and its promise is fulfilled, not rejected.
\<close>

theorem failed_mutation_changes_nothing:
  assumes "(op, msg) \<in>
     {(grantUser, ''Could not grant permission to the user''),
      (revokeUser, ''Could not remove permission from the user''),
      (grantGroup, ''Could not grant permission to the group''),
      (revokeGroup, ''Could not remove permission from the group'')}"
  shows "\<exists>req.
     fst (op aclUrl Rejected permReply groupsReply t ident) = [req, NotifyError msg] \<and>
     snd (op aclUrl Rejected permReply groupsReply t ident) = Fulfilled () \<and>
     mutations (fst (op aclUrl Rejected permReply groupsReply t ident)) = [req] \<and>
     notifications (fst (op aclUrl Rejected permReply groupsReply t ident)) = [msg] \<and>
     reloads (fst (op aclUrl Rejected permReply groupsReply t ident)) = 0 \<and>
     grantsStored (fst (op aclUrl Rejected permReply groupsReply t ident)) = [] \<and>
     run (fst (op aclUrl Rejected permReply groupsReply t ident)) d = d"
  using assms
  by (elim insertE emptyE)
     (simp_all add: grantUser_def revokeUser_def grantGroup_def revokeGroup_def
        catchDo_def thenDo_def request_def mutations_def notifications_def reloads_def
        grantsStored_def run_def)

theorem failed_mutation_changes_nothing_witness:
  "(revokeGroup, ''Could not remove permission from the group'') \<in>
     {(grantUser, ''Could not grant permission to the user''),
      (revokeUser, ''Could not remove permission from the user''),
      (grantGroup, ''Could not grant permission to the group''),
      (revokeGroup, ''Could not remove permission from the group'')} \<and>
   fst (revokeGroup ''/acl'' Rejected (Fulfilled JNull) Rejected View (JNum 2)) =
     [Request DELETE ''/acl'' (Some (JObj [(''access_type'', JStr ''view''), (''group_id'', JNum 2)])),
      NotifyError ''Could not remove permission from the group''] \<and>
   run (fst (revokeGroup ''/acl'' Rejected (Fulfilled JNull) Rejected View (JNum 2))) initialDialog =
     initialDialog"
  using failed_mutation_changes_nothing
    [of revokeGroup "''Could not remove permission from the group''" "''/acl''"
        "Fulfilled JNull" Rejected View "JNum 2" initialDialog]
  by (simp add: revokeGroup_def catchDo_def thenDo_def request_def)

section \<open>Properties of the debounced search\<close>

lemma searchesIssued_pending:
  "withinQuietInterval DEBOUNCE_SEARCH_DURATION ((t0, a0) # ks) \<Longrightarrow>
   searchesIssued ks (Some (t0, a0)) = [snd (last ((t0, a0) # ks))]"
proof (induction ks arbitrary: t0 a0)
  case Nil
  show ?case by (simp add: settle_def)
next
  case (Cons k ks)
  obtain t1 a1 where k: "k = (t1, a1)" by (cases k)
  from Cons.prems k have gap: "t1 < t0 + DEBOUNCE_SEARCH_DURATION"
    and rest: "withinQuietInterval DEBOUNCE_SEARCH_DURATION ((t1, a1) # ks)"
    by simp_all
  from gap have "callDebounced DEBOUNCE_SEARCH_DURATION t1 a1 (Some (t0, a0)) = ([], Some (t1, a1))"
    by (simp add: callDebounced_def elapse_def)
  then show ?case using Cons.IH [OF rest] k by simp
qed

text \<open>
  C10. Search terms entered one after the other, each less than the 200 units
  of \<open>DEBOUNCE_SEARCH_DURATION\<close> after the one before, give exactly one call of
  \<open>searchUsers\<close>, with the last term; the same holds when a lookup was already
  pending less than 200 units before the first term. The earlier lookups never
  run.
\<close>

theorem debounce_collapses_keystrokes:
  "DEBOUNCE_SEARCH_DURATION = 200 \<and>
   (ks \<noteq> [] \<and> withinQuietInterval DEBOUNCE_SEARCH_DURATION ks \<longrightarrow>
      searchesIssued ks None = [snd (last ks)]) \<and>
   (withinQuietInterval DEBOUNCE_SEARCH_DURATION ((t0, a0) # ks) \<longrightarrow>
      searchesIssued ks (Some (t0, a0)) = [snd (last ((t0, a0) # ks))])"
proof -
  have "searchesIssued ks None = [snd (last ks)]"
    if "ks \<noteq> []" "withinQuietInterval DEBOUNCE_SEARCH_DURATION ks"
  proof -
    from that(1) obtain t a rest where ks: "ks = (t, a) # rest" by (cases ks) auto
    have "searchesIssued ks None = searchesIssued rest (Some (t, a))"
      by (simp add: ks callDebounced_def elapse_def)
    also have "\<dots> = [snd (last ((t, a) # rest))]"
      using searchesIssued_pending that(2) ks by simp
    finally show ?thesis using ks by simp
  qed
  then show ?thesis
    using searchesIssued_pending [of t0 a0 ks] by (simp add: DEBOUNCE_SEARCH_DURATION_def)
qed

theorem debounce_collapses_keystrokes_witness:
  "[(1000, ''a''), (1080, ''al''), (1199, ''ali'')] \<noteq> [] \<and>
   withinQuietInterval DEBOUNCE_SEARCH_DURATION [(1000, ''a''), (1080, ''al''), (1199, ''ali'')] \<and>
   searchesIssued [(1000, ''a''), (1080, ''al''), (1199, ''ali'')] None = [''ali'']"
  using debounce_collapses_keystrokes [of "[(1000, ''a''), (1080, ''al''), (1199, ''ali'')]"]
  by (simp add: DEBOUNCE_SEARCH_DURATION_def)

text \<open>
  Two terms a full interval apart are two searches.
\<close>

lemma searches_after_quiet_interval:
  "searchesIssued [(0, ''a''), (200, ''al'')] None = [''a'', ''al'']"
  by (simp add: DEBOUNCE_SEARCH_DURATION_def callDebounced_def elapse_def settle_def)


end
